theory Spec2Isabelle
  imports Complex_Main "HOL-Library.Word"
begin

section \<open>Runtime profile counters (be/src/util/runtime_profile.h)\<close>

text \<open>
  A shallow embedding of the counters and profile nodes of \<^verbatim>\<open>runtime_profile.h\<close>.
  A 64-bit signed integer of the source is a \<^typ>\<open>64 word\<close>: addition wraps, and
  the signed order of the source (\<^verbatim>\<open><\<close>, \<^verbatim>\<open>std::max\<close>, \<^verbatim>\<open>std::min\<close> on
  \<^verbatim>\<open>int64_t\<close>) is \<open><s\<close> and \<open>\<le>s\<close>. An atomic cell is the value it holds;
  a member function that mutates its object returns the updated object.
\<close>

type_synonym int64 = "64 word"

subsection \<open>Thrift enumerations and the counter strategy\<close>

text \<open>
  Modelled from the spec: the enumerations and the strategy structure of the
  Thrift-generated \<^verbatim>\<open>gen_cpp/RuntimeProfile_types.h\<close>, which is not among the
  sources. They carry the enumerators and the fields that \<^verbatim>\<open>runtime_profile.h\<close>
  names (\<^verbatim>\<open>TUnit::CPU_TICKS\<close>, \<^verbatim>\<open>TCounterAggregateType::SUM\<close>,
  \<^verbatim>\<open>strategy.aggregate_type\<close>, ...); the units that are not times follow the unit
  kinds of the spec ("time, bytes, count, rate", and double-valued counters). An
  enumerator is prefixed where two enumerations share its name or where the plain name
  is HOL syntax.
\<close>

datatype TUnit =
  UNIT | UNIT_PER_SECOND | CPU_TICKS | BYTES | BYTES_PER_SECOND
  | TIME_NS | DOUBLE_VALUE | TIME_MS | TIME_S

datatype TCounterAggregateType = AGG_SUM | AGG_AVG | AGG_SUM_AVG | AGG_AVG_SUM

datatype TCounterMergeType = MERGE_ALL | MERGE_SKIP_ALL | SKIP_FIRST_MERGE

datatype TCounterMinMaxType = MIN_MAX_ALL | MIN_MAX_SKIP_ALL

record TCounterStrategy =
  aggregate_type :: TCounterAggregateType
  merge_type :: TCounterMergeType
  display_threshold :: int64
  min_max_type :: TCounterMinMaxType

definition is_time_type :: "TUnit \<Rightarrow> bool" where
  "is_time_type ty \<longleftrightarrow> CPU_TICKS = ty \<or> TIME_NS = ty \<or> TIME_MS = ty \<or> TIME_S = ty"

text \<open>The first overload of \<^verbatim>\<open>Counter::create_strategy\<close>, all four arguments given.\<close>

definition create_strategy_agg ::
  "TCounterAggregateType \<Rightarrow> TCounterMergeType \<Rightarrow> int64 \<Rightarrow> TCounterMinMaxType \<Rightarrow> TCounterStrategy"
where
  "create_strategy_agg agg mt threshold mm =
     \<lparr>aggregate_type = agg, merge_type = mt, display_threshold = threshold, min_max_type = mm\<rparr>"

text \<open>The second overload, from the unit; \<open>create_strategy\<close> is the call with the defaults.\<close>

definition create_strategy_unit ::
  "TUnit \<Rightarrow> TCounterMergeType \<Rightarrow> int64 \<Rightarrow> TCounterMinMaxType \<Rightarrow> TCounterStrategy"
where
  "create_strategy_unit ty mt threshold mm =
     (let agg = (if is_time_type ty then AGG_AVG else AGG_SUM)
      in create_strategy_agg agg mt threshold mm)"

definition create_strategy :: "TUnit \<Rightarrow> TCounterStrategy" where
  "create_strategy ty = create_strategy_unit ty MERGE_ALL 0 MIN_MAX_ALL"

subsection \<open>Counter\<close>

record Counter =
  c_value :: int64
  c_type :: TUnit
  c_strategy :: TCounterStrategy
  c_min_value :: "int64 option"
  c_max_value :: "int64 option"

text \<open>
  \<^verbatim>\<open>explicit Counter(TUnit::type type, int64_t value = 0)\<close>: the member initialiser
  is \<^verbatim>\<open>_value(0)\<close>, whatever \<^verbatim>\<open>value\<close> is.
\<close>

definition Counter2 :: "TUnit \<Rightarrow> int64 \<Rightarrow> Counter" where
  "Counter2 ty val =
     \<lparr>c_value = 0, c_type = ty, c_strategy = create_strategy ty,
      c_min_value = None, c_max_value = None\<rparr>"

text \<open>\<^verbatim>\<open>explicit Counter(TUnit::type type, const TCounterStrategy& strategy, int64_t value = 0)\<close>.\<close>

definition Counter3 :: "TUnit \<Rightarrow> TCounterStrategy \<Rightarrow> int64 \<Rightarrow> Counter" where
  "Counter3 ty strategy val =
     \<lparr>c_value = val, c_type = ty, c_strategy = strategy,
      c_min_value = None, c_max_value = None\<rparr>"

text \<open>\<^verbatim>\<open>update\<close> is one atomic \<^verbatim>\<open>fetch_add\<close>; \<^verbatim>\<open>set\<close> a store; \<^verbatim>\<open>value\<close> a load.\<close>

definition update :: "int64 \<Rightarrow> 'a Counter_scheme \<Rightarrow> 'a Counter_scheme" where
  "update delta c = c\<lparr>c_value := c_value c + delta\<rparr>"

definition set_value :: "int64 \<Rightarrow> Counter \<Rightarrow> Counter" where
  "set_value v c = c\<lparr>c_value := v\<rparr>"

definition counter_value :: "'a Counter_scheme \<Rightarrow> int64" where
  "counter_value c = c_value c"





subsection \<open>WaterMarkCounter\<close>

text \<open>
  \<^verbatim>\<open>template <bool is_high> class WaterMarkCounter : public Counter\<close> adds the field
  \<^verbatim>\<open>current_value_\<close> (here \<open>current_val\<close>); the template argument is the first
  argument of every function.
\<close>

record WaterMarkCounter = Counter +
  current_val :: int64

definition MAX_INT64 :: int64 where
  "MAX_INT64 = 9223372036854775807"

definition smax :: "int64 \<Rightarrow> int64 \<Rightarrow> int64" where
  "smax a b = (if a <s b then b else a)"

definition smin :: "int64 \<Rightarrow> int64 \<Rightarrow> int64" where
  "smin a b = (if b <s a then b else a)"

text \<open>
  \<^verbatim>\<open>compare_exchange_strong(expected, desired)\<close> on a cell: the flag it returns and
  the cell afterwards.
\<close>

definition compare_exchange_strong :: "int64 \<Rightarrow> int64 \<Rightarrow> int64 \<Rightarrow> bool \<times> int64" where
  "compare_exchange_strong cell expected desired =
     (if cell = expected then (True, desired) else (False, cell))"

definition set_init_value :: "bool \<Rightarrow> WaterMarkCounter \<Rightarrow> WaterMarkCounter" where
  "set_init_value is_high c =
     (if is_high then c\<lparr>c_value := 0, current_val := 0\<rparr>
      else c\<lparr>c_value := MAX_INT64, current_val := MAX_INT64\<rparr>)"

text \<open>
  The two constructors run the matching \<^verbatim>\<open>Counter\<close> constructor and then
  \<^verbatim>\<open>_set_init_value()\<close>. The member \<^verbatim>\<open>current_value_\<close> has no initialiser; the
  placeholder 0 is overwritten by \<^verbatim>\<open>_set_init_value\<close> on both branches.
\<close>

definition WaterMarkCounter2 :: "bool \<Rightarrow> TUnit \<Rightarrow> int64 \<Rightarrow> WaterMarkCounter" where
  "WaterMarkCounter2 is_high ty val =
     set_init_value is_high (Counter.extend (Counter2 ty val) (WaterMarkCounter.fields 0))"

definition WaterMarkCounter3 :: "bool \<Rightarrow> TUnit \<Rightarrow> TCounterStrategy \<Rightarrow> int64 \<Rightarrow> WaterMarkCounter" where
  "WaterMarkCounter3 is_high ty strategy val =
     set_init_value is_high (Counter.extend (Counter3 ty strategy val) (WaterMarkCounter.fields 0))"

definition current_value :: "WaterMarkCounter \<Rightarrow> int64" where
  "current_value c = current_val c"

text \<open>
  \<^verbatim>\<open>Update(v)\<close>: the loop retries while the compare-and-swap fails; a run that never
  leaves the loop is \<open>None\<close>.
\<close>

partial_function (option) Update :: "bool \<Rightarrow> int64 \<Rightarrow> WaterMarkCounter \<Rightarrow> WaterMarkCounter option" where
  "Update is_high v c =
     (let old_value = c_value c;
          new_value = (if is_high then smax old_value v else smin old_value v)
      in if new_value = old_value then Some c
         else (let (ok, cell) = compare_exchange_strong (c_value c) old_value new_value
               in if ok then Some (c\<lparr>c_value := cell\<rparr>)
                  else Update is_high v (c\<lparr>c_value := cell\<rparr>)))"

declare Update.simps [code]

text \<open>\<^verbatim>\<open>add(delta)\<close>: \<^verbatim>\<open>fetch_add\<close> on the current value, then \<^verbatim>\<open>Update\<close>.\<close>

definition add :: "bool \<Rightarrow> int64 \<Rightarrow> WaterMarkCounter \<Rightarrow> WaterMarkCounter option" where
  "add is_high delta c =
     (let new_val = current_val c + delta
      in Update is_high new_val (c\<lparr>current_val := new_val\<rparr>))"

text \<open>
  \<^verbatim>\<open>try_add(delta, max)\<close>: the flag returned and the counter afterwards.
\<close>

partial_function (option) try_add ::
  "bool \<Rightarrow> int64 \<Rightarrow> int64 \<Rightarrow> WaterMarkCounter \<Rightarrow> (bool \<times> WaterMarkCounter) option"
where
  "try_add is_high delta mx c =
     (let old_val = current_val c;
          new_val = old_val + delta
      in if mx <s new_val then Some (False, c)
         else (let (ok, cell) = compare_exchange_strong (current_val c) old_val new_val
               in if ok
                  then map_option (Pair True) (Update is_high new_val (c\<lparr>current_val := cell\<rparr>))
                  else try_add is_high delta mx (c\<lparr>current_val := cell\<rparr>)))"

declare try_add.simps [code]

text \<open>\<^verbatim>\<open>set(v)\<close> of the watermark counter: store the current value, then \<^verbatim>\<open>Update\<close>.\<close>

definition wm_set :: "bool \<Rightarrow> int64 \<Rightarrow> WaterMarkCounter \<Rightarrow> WaterMarkCounter option" where
  "wm_set is_high v c = Update is_high v (c\<lparr>current_val := v\<rparr>)"

text \<open>A high watermark counter holding current value 10 and extreme 10.\<close>

definition wm_at_10 :: WaterMarkCounter where
  "wm_at_10 = the (wm_set True 10 (WaterMarkCounter2 True UNIT 0))"

subsection \<open>Concurrent updates of one Counter\<close>

text \<open>
  \<^verbatim>\<open>Counter::update\<close> is a single atomic read-modify-write (\<^verbatim>\<open>fetch_add\<close>), so a
  concurrent execution of update calls is a sequence of whole updates: the
  modification order of the cell. \<open>pending\<close> holds, per thread, the deltas that
  thread has still to issue, in program order; a schedule names the thread that
  performs each step. A step of a thread that has nothing left (or of a thread that
  does not exist) changes nothing.
\<close>

fun run_updates :: "nat list \<Rightarrow> int64 list list \<Rightarrow> Counter \<Rightarrow> int64 list list \<times> Counter" where
  "run_updates [] pending c = (pending, c)"
| "run_updates (t # sched) pending c =
     (if t < length pending
      then (case pending ! t of
              [] \<Rightarrow> run_updates sched pending c
            | delta # rest \<Rightarrow> run_updates sched (pending[t := rest]) (update delta c))
      else run_updates sched pending c)"

subsection \<open>ScopedTimer\<close>

text \<open>
  Pointers are addresses into a store: \<^verbatim>\<open>RuntimeProfile::Counter*\<close> into
  \<open>h_counters\<close>, \<^verbatim>\<open>const bool*\<close> into \<open>h_flags\<close>; \<open>None\<close> is \<^verbatim>\<open>nullptr\<close>.
\<close>

record heap =
  h_counters :: "nat \<Rightarrow> Counter"
  h_flags :: "nat \<Rightarrow> bool"

text \<open>
  The template argument \<^verbatim>\<open>T\<close> "must implement the stopWatch interface
  (start, stop, elapsed_time)": a record of the three operations on the watch's state
  \<open>'sw\<close>, which includes the clock the watch reads.
\<close>

record 'sw StopWatch =
  sw_start :: "'sw \<Rightarrow> 'sw"
  sw_stop :: "'sw \<Rightarrow> 'sw"
  sw_elapsed_time :: "'sw \<Rightarrow> int64"

record 'sw ScopedTimer =
  st_sw :: 'sw
  st_counter :: "nat option"
  st_is_cancelled :: "nat option"

text \<open>
  The constructor, from a default-constructed watch \<open>sw0\<close>: with a null counter it
  returns before the watch is started. (The \<^verbatim>\<open>DCHECK\<close> on the counter's unit is a
  debug-build assertion and has no effect on the state.)
\<close>

definition ScopedTimer_ctor ::
  "'sw StopWatch \<Rightarrow> 'sw \<Rightarrow> nat option \<Rightarrow> nat option \<Rightarrow> 'sw ScopedTimer"
where
  "ScopedTimer_ctor T sw0 counter cancelled =
     (if counter = None
      then \<lparr>st_sw = sw0, st_counter = counter, st_is_cancelled = cancelled\<rparr>
      else \<lparr>st_sw = sw_start T sw0, st_counter = counter, st_is_cancelled = cancelled\<rparr>)"

definition is_cancelled :: "'sw ScopedTimer \<Rightarrow> heap \<Rightarrow> bool" where
  "is_cancelled t h = (case st_is_cancelled t of None \<Rightarrow> False | Some a \<Rightarrow> h_flags h a)"

definition UpdateCounter :: "'sw StopWatch \<Rightarrow> 'sw ScopedTimer \<Rightarrow> heap \<Rightarrow> heap" where
  "UpdateCounter T t h =
     (case st_counter t of
        None \<Rightarrow> h
      | Some a \<Rightarrow>
          if \<not> is_cancelled t h
          then h\<lparr>h_counters := (h_counters h)(a := update (sw_elapsed_time T (st_sw t)) (h_counters h a))\<rparr>
          else h)"

text \<open>The destructor, which runs on every way out of the scope: stop, then \<^verbatim>\<open>UpdateCounter\<close>.\<close>

definition ScopedTimer_dtor :: "'sw StopWatch \<Rightarrow> 'sw ScopedTimer \<Rightarrow> heap \<Rightarrow> 'sw ScopedTimer \<times> heap" where
  "ScopedTimer_dtor T t h =
     (let t' = t\<lparr>st_sw := sw_stop T (st_sw t)\<rparr>
      in (t', UpdateCounter T t' h))"

text \<open>
  Modelled from the spec: \<^verbatim>\<open>MonotonicStopWatch\<close> of \<^verbatim>\<open>util/stopwatch.hpp\<close>, which
  is not among the sources. The spec has a scoped timer capture "a monotonic starting
  point on construction" and add "the elapsed duration" on leaving scope: the watch
  remembers the clock reading at \<open>start\<close>, \<open>stop\<close> adds the time since then to its
  total, and \<open>elapsed_time\<close> of a stopped watch is that total. \<open>msw_now\<close> is the
  monotonic clock, which \<open>advance\<close> moves forward.
\<close>

record MonotonicStopWatch =
  msw_now :: int64
  msw_start :: int64
  msw_total_time :: int64
  msw_running :: bool

definition msw_new :: "int64 \<Rightarrow> MonotonicStopWatch" where
  "msw_new now = \<lparr>msw_now = now, msw_start = 0, msw_total_time = 0, msw_running = False\<rparr>"

definition msw_elapsed_time :: "MonotonicStopWatch \<Rightarrow> int64" where
  "msw_elapsed_time w = (if \<not> msw_running w then msw_total_time w else msw_now w - msw_start w)"

definition msw_start_op :: "MonotonicStopWatch \<Rightarrow> MonotonicStopWatch" where
  "msw_start_op w = (if \<not> msw_running w then w\<lparr>msw_start := msw_now w, msw_running := True\<rparr> else w)"

definition msw_stop_op :: "MonotonicStopWatch \<Rightarrow> MonotonicStopWatch" where
  "msw_stop_op w =
     (if msw_running w
      then w\<lparr>msw_total_time := msw_total_time w + msw_elapsed_time w, msw_running := False\<rparr>
      else w)"

definition advance :: "int64 \<Rightarrow> 'a MonotonicStopWatch_scheme \<Rightarrow> 'a MonotonicStopWatch_scheme" where
  "advance d w = w\<lparr>msw_now := msw_now w + d\<rparr>"

definition MonotonicStopWatch_ops :: "MonotonicStopWatch StopWatch" where
  "MonotonicStopWatch_ops =
     \<lparr>sw_start = msw_start_op, sw_stop = msw_stop_op, sw_elapsed_time = msw_elapsed_time\<rparr>"

text \<open>
  A store whose counter at address 0 is a fresh \<^verbatim>\<open>TIME_NS\<close> counter and whose flag at
  address 0 is not set, and the scope of \<^verbatim>\<open>CANCEL_SAFE_SCOPED_TIMER\<close> on them: the
  timer is constructed, \<open>d\<close> time units pass, the flag is written, the scope is left.
\<close>

definition heap0 :: heap where
  "heap0 = \<lparr>h_counters = (\<lambda>a. Counter2 TIME_NS 0), h_flags = (\<lambda>a. False)\<rparr>"

definition timed_scope :: "int64 \<Rightarrow> int64 \<Rightarrow> bool \<Rightarrow> heap" where
  "timed_scope now d flag =
     (let t = ScopedTimer_ctor MonotonicStopWatch_ops (msw_new now) (Some 0) (Some 0);
          t1 = t\<lparr>st_sw := advance d (st_sw t)\<rparr>;
          h1 = heap0\<lparr>h_flags := (h_flags heap0)(0 := flag)\<rparr>
      in snd (ScopedTimer_dtor MonotonicStopWatch_ops t1 h1))"

subsection \<open>Profile node: the fields and the inline member functions\<close>

text \<open>
  A profile node, with its pointers (\<^verbatim>\<open>RuntimeProfile*\<close>, \<^verbatim>\<open>Counter*\<close>) as addresses
  into the object pool. Fields are prefixed \<open>p_\<close> for the source's leading underscore.
  The info strings, event sequences and bucketing counters, which none of the
  functions below reads or writes, are left out.
\<close>

record RuntimeProfile =
  p_parent :: "nat option"
  p_name :: string
  p_metadata :: int64
  p_is_averaged_profile :: bool
  p_counter_map :: "string \<rightharpoonup> (nat \<times> string)"
  p_child_counter_map :: "string \<rightharpoonup> string set"
  p_child_map :: "string \<rightharpoonup> nat"
  p_children :: "(nat \<times> bool) list"
  p_counter_total_time :: Counter
  p_local_time_percent :: real
  p_version :: int64

definition reset_parent :: "RuntimeProfile \<Rightarrow> RuntimeProfile" where
  "reset_parent p = p\<lparr>p_parent := None\<rparr>"

definition set_name :: "string \<Rightarrow> RuntimeProfile \<Rightarrow> RuntimeProfile" where
  "set_name n p = p\<lparr>p_name := n\<rparr>"

definition set_metadata :: "int64 \<Rightarrow> RuntimeProfile \<Rightarrow> RuntimeProfile" where
  "set_metadata md p = p\<lparr>p_metadata := md\<rparr>"

definition inc_version :: "RuntimeProfile \<Rightarrow> RuntimeProfile" where
  "inc_version p = p\<lparr>p_version := p_version p + 1\<rparr>"

definition get_version :: "RuntimeProfile \<Rightarrow> int64" where
  "get_version p = p_version p"

text \<open>
  \<^verbatim>\<open>sort_childer(cmp)\<close> reorders \<^verbatim>\<open>_children\<close> by \<^verbatim>\<open>std::sort\<close>, which leaves some
  permutation of the list; the permutation is given by the positions \<open>perm\<close>.
\<close>

definition sort_childer :: "nat list \<Rightarrow> RuntimeProfile \<Rightarrow> RuntimeProfile" where
  "sort_childer perm p =
     (if distinct perm \<and> set perm = {0 ..< length (p_children p)}
      then p\<lparr>p_children := map (\<lambda>i. p_children p ! i) perm\<rparr>
      else p)"

text \<open>The member functions the header defines on a node, as operations to run in sequence.\<close>

datatype node_op =
  Reset_parent | Set_name string | Set_metadata int64 | Sort_childer "nat list"
  | Inc_version | Get_version

fun apply_op :: "node_op \<Rightarrow> RuntimeProfile \<Rightarrow> RuntimeProfile" where
  "apply_op Reset_parent p = reset_parent p"
| "apply_op (Set_name n) p = set_name n p"
| "apply_op (Set_metadata md) p = set_metadata md p"
| "apply_op (Sort_childer perm) p = sort_childer perm p"
| "apply_op Inc_version p = inc_version p"
| "apply_op Get_version p = p"

fun run_ops :: "node_op list \<Rightarrow> RuntimeProfile \<Rightarrow> RuntimeProfile" where
  "run_ops [] p = p"
| "run_ops (x # xs) p = run_ops xs (apply_op x p)"

text \<open>
  Modelled from the spec: the constructor \<^verbatim>\<open>RuntimeProfile(name, is_averaged_profile)\<close>,
  declared in the header and defined in \<^verbatim>\<open>runtime_profile.cpp\<close>, which is not among
  the sources. A node is "created with a name and averaged-flag"; its counters, children
  and strings "are added incrementally", so the maps and the child list start empty. The
  version starts at 0 (the header's initialiser \<^verbatim>\<open>_version{0}\<close>); the total-time
  counter is a time counter at 0; the spec does not fix the first metadata value, 0 here.
\<close>

definition RuntimeProfile_ctor :: "string \<Rightarrow> bool \<Rightarrow> RuntimeProfile" where
  "RuntimeProfile_ctor name is_averaged =
     \<lparr>p_parent = None, p_name = name, p_metadata = 0, p_is_averaged_profile = is_averaged,
      p_counter_map = Map.empty, p_child_counter_map = Map.empty, p_child_map = Map.empty,
      p_children = [], p_counter_total_time = Counter2 TIME_NS 0, p_local_time_percent = 0,
      p_version = 0\<rparr>"

subsection \<open>Profile node: registration of children and counters\<close>

text \<open>
  The object pool: a \<^verbatim>\<open>RuntimeProfile*\<close> is a position in \<open>pool_profiles\<close>, a
  \<^verbatim>\<open>Counter*\<close> a position in \<open>pool_counters\<close>; an allocation appends, so the new object's
  address is the length of the list before. \<open>self\<close> is \<^verbatim>\<open>this\<close>; a call on an
  address that holds no node is \<open>None\<close>.
\<close>

record pool =
  pool_profiles :: "RuntimeProfile list"
  pool_counters :: "Counter list"

text \<open>The root sentinel of the child-counter map: the empty name.\<close>

definition ROOT_COUNTER :: string where
  "ROOT_COUNTER = []"

text \<open>
  Modelled from the spec: \<^verbatim>\<open>create_child(name, indent, prepend)\<close>, declared in the
  header (with its contract in the comment above the declaration) and defined in
  \<^verbatim>\<open>runtime_profile.cpp\<close>, which is not among the sources. "If a child with that
  name exists, returns it unchanged (indent/prepend ignored on repeat); otherwise
  allocates a new node, sets its parent back-reference, and inserts it at the front or
  back of the ordered child list per prepend." The result is the child's address and
  the pool afterwards.
\<close>

definition create_child :: "nat \<Rightarrow> string \<Rightarrow> bool \<Rightarrow> bool \<Rightarrow> pool \<Rightarrow> (nat \<times> pool) option" where
  "create_child self name indent prepend st =
     (if self < length (pool_profiles st)
      then (let p = pool_profiles st ! self
            in case p_child_map p name of
                 Some child \<Rightarrow> Some (child, st)
               | None \<Rightarrow>
                   (let child = length (pool_profiles st);
                        node = (RuntimeProfile_ctor name False)\<lparr>p_parent := Some self\<rparr>;
                        p' = p\<lparr>p_child_map := (p_child_map p)(name \<mapsto> child),
                               p_children := (if prepend then (child, indent) # p_children p
                                              else p_children p @ [(child, indent)])\<rparr>
                    in Some (child, st\<lparr>pool_profiles := (pool_profiles st)[self := p'] @ [node]\<rparr>)))
      else None)"

text \<open>
  Modelled from the spec: \<^verbatim>\<open>add_child_counter(name, type, strategy, parent_name)\<close>,
  declared in the header and defined in \<^verbatim>\<open>runtime_profile.cpp\<close>, which is not among
  the sources. "If a counter with that name already exists anywhere in the node, the
  existing Counter is returned unchanged (type/strategy of the call are ignored on a
  repeat registration)"; otherwise a counter of that unit and strategy is created at 0,
  entered in the counter map with its parent's name, and its name is added to the
  parent's set in the child-counter map.
\<close>

definition add_child_counter ::
  "nat \<Rightarrow> string \<Rightarrow> TUnit \<Rightarrow> TCounterStrategy \<Rightarrow> string \<Rightarrow> pool \<Rightarrow> (nat \<times> pool) option"
where
  "add_child_counter self name ty strategy parent_name st =
     (if self < length (pool_profiles st)
      then (let p = pool_profiles st ! self
            in case p_counter_map p name of
                 Some (c, parent) \<Rightarrow> Some (c, st)
               | None \<Rightarrow>
                   (let c = length (pool_counters st);
                        siblings = (case p_child_counter_map p parent_name of
                                      None \<Rightarrow> {} | Some names \<Rightarrow> names);
                        p' = p\<lparr>p_counter_map := (p_counter_map p)(name \<mapsto> (c, parent_name)),
                               p_child_counter_map :=
                                 (p_child_counter_map p)(parent_name \<mapsto> insert name siblings)\<rparr>
                    in Some (c, st\<lparr>pool_profiles := (pool_profiles st)[self := p'],
                                    pool_counters := pool_counters st @ [Counter3 ty strategy 0]\<rparr>)))
      else None)"

text \<open>\<^verbatim>\<open>add_counter\<close>, as the header defines it.\<close>

definition add_counter ::
  "nat \<Rightarrow> string \<Rightarrow> TUnit \<Rightarrow> TCounterStrategy \<Rightarrow> pool \<Rightarrow> (nat \<times> pool) option"
where
  "add_counter self name ty strategy st = add_child_counter self name ty strategy ROOT_COUNTER st"

text \<open>A pool holding one node, a query's root profile, at address 0.\<close>

definition pool0 :: pool where
  "pool0 = \<lparr>pool_profiles = [RuntimeProfile_ctor ''Query'' False], pool_counters = []\<rparr>"

subsection \<open>The profile tree and the tree algorithms\<close>

text \<open>
  The tree algorithms (\<^verbatim>\<open>compute_time_in_profile\<close>, \<^verbatim>\<open>update\<close>,
  \<^verbatim>\<open>merge_isomorphic_profiles\<close>) walk a node, its counters and its children in order.
  They are modelled on the tree the nodes form: a node with its name, its version, its
  named counters (an association list), its total-time counter, its local time
  fraction and its children in list order.
\<close>

datatype profile =
  Profile (n_name: string) (n_version: int64) (n_counters: "(string \<times> Counter) list")
    (n_total_time: Counter) (n_local_time_percent: real) (n_children: "profile list")

text \<open>Every node of a tree, parent before children, children in order.\<close>

fun all_nodes :: "profile \<Rightarrow> profile list" where
  "all_nodes (Profile nm ver cs tt ltp kids) =
     Profile nm ver cs tt ltp kids # concat (map all_nodes kids)"

text \<open>
  Modelled from the spec: the recursive helper
  \<^verbatim>\<open>compute_time_in_profile(int64_t total_time)\<close>, declared in the header and defined
  in \<^verbatim>\<open>runtime_profile.cpp\<close>, which is not among the sources. "A single top-down
  pass: for each node, local-time-fraction = (this node's total-time counter value
  - sum of direct children's total-time counter values) / the root's total-time
  counter value, clamped to [0,1] and treated as 0 when the root total time is 0."
  The counter values are read as signed integers and the quotient is the exact one:
  the source's \<^verbatim>\<open>double\<close> is a real number here.
\<close>

definition clamp01 :: "real \<Rightarrow> real" where
  "clamp01 x = max 0 (min 1 x)"

fun compute_time_rec :: "int64 \<Rightarrow> profile \<Rightarrow> profile" where
  "compute_time_rec total_time (Profile nm ver cs tt ltp kids) =
     (let total_child_time = sum_list (map (\<lambda>k. sint (counter_value (n_total_time k))) kids);
          local_time = sint (counter_value tt) - total_child_time;
          fraction = (if total_time = 0 then 0
                      else clamp01 (real_of_int local_time / real_of_int (sint total_time)))
      in Profile nm ver cs tt fraction (map (compute_time_rec total_time) kids))"

text \<open>
  Modelled from the spec: the public \<^verbatim>\<open>compute_time_in_profile()\<close>, the pass from
  the root with the root's total time.
\<close>

definition compute_time_in_profile :: "profile \<Rightarrow> profile" where
  "compute_time_in_profile p = compute_time_rec (counter_value (n_total_time p)) p"

text \<open>
  The fraction the spec gives for a node \<open>q\<close> of a tree whose root has total time
  \<open>root_total\<close>, written out on its own.
\<close>

definition local_time_fraction :: "int64 \<Rightarrow> profile \<Rightarrow> real" where
  "local_time_fraction root_total q =
     (if root_total = 0 then 0
      else max 0 (min 1
        (real_of_int (sint (counter_value (n_total_time q))
            - (\<Sum>k \<leftarrow> n_children q. sint (counter_value (n_total_time k))))
         / real_of_int (sint root_total))))"

text \<open>A node with no counters of its own, total time \<open>t\<close> and the given children.\<close>

definition timed :: "string \<Rightarrow> int64 \<Rightarrow> profile list \<Rightarrow> profile" where
  "timed nm t kids = Profile nm 0 [] (Counter3 TIME_NS (create_strategy TIME_NS) t) 0 kids"

subsection \<open>Incremental update from a flattened snapshot\<close>

text \<open>
  Modelled from the spec: the Thrift structures \<^verbatim>\<open>TCounter\<close> and
  \<^verbatim>\<open>TRuntimeProfileNode\<close> of \<^verbatim>\<open>gen_cpp/RuntimeProfile_types.h\<close>, which is not
  among the sources. An entry of the flattened listing carries, as the spec lists them,
  the node's name, its counters (name, unit, strategy, value), its metadata, its indent
  flag, its version and the declared number of its children, whose subtrees follow it
  in the listing.
\<close>

record TCounter =
  tc_name :: string
  tc_type :: TUnit
  tc_value :: int64
  tc_strategy :: TCounterStrategy

record TRuntimeProfileNode =
  tn_name :: string
  tn_num_children :: nat
  tn_counters :: "TCounter list"
  tn_metadata :: int64
  tn_indent :: bool
  tn_version :: int64

text \<open>A node just created under a name: no counters, no children, version 0.\<close>

definition new_profile :: "string \<Rightarrow> profile" where
  "new_profile nm = Profile nm 0 [] (Counter2 TIME_NS 0) 0 []"

text \<open>
  Registering a counter under a name and setting it, on the counters of a tree node:
  the counter registered under the name is set to \<open>v\<close>, and when there is none a
  counter of the given unit and strategy is created with that value.
\<close>

definition put_counter ::
  "string \<Rightarrow> TUnit \<Rightarrow> TCounterStrategy \<Rightarrow> int64 \<Rightarrow> (string \<times> Counter) list \<Rightarrow> (string \<times> Counter) list"
where
  "put_counter name ty strategy v cs =
     (case map_of cs name of
        None \<Rightarrow> cs @ [(name, Counter3 ty strategy v)]
      | Some c \<Rightarrow> map (\<lambda>(n, c). if n = name then (n, set_value v c) else (n, c)) cs)"

definition apply_counter :: "TCounter \<Rightarrow> (string \<times> Counter) list \<Rightarrow> (string \<times> Counter) list" where
  "apply_counter tc cs = put_counter (tc_name tc) (tc_type tc) (tc_strategy tc) (tc_value tc) cs"

text \<open>The position of the first child with the given name.\<close>

fun find_child :: "string \<Rightarrow> profile list \<Rightarrow> nat option" where
  "find_child nm [] = None"
| "find_child nm (k # ks) = (if n_name k = nm then Some 0 else map_option Suc (find_child nm ks))"

text \<open>
  Modelled from the spec: the private
  \<^verbatim>\<open>update(const std::vector<TRuntimeProfileNode>& nodes, int* idx, bool is_parent_node_old)\<close>,
  declared in the header (with its contract in the comment above the declaration) and
  defined in \<^verbatim>\<open>runtime_profile.cpp\<close>, which is not among the sources. The spec:
  "walks a depth-first flattened listing (each entry self-describing its own child
  count) and applies it onto the live tree: a counter present in the snapshot but absent
  locally is created; present in both is overwritten; a node whose incoming version is
  not strictly newer than the locally stored version has its value-updates skipped, but
  the traversal must still advance past that node's entire subtree span". The header:
  "If the version of the parent node, or the version of root node for this subtree is
  older, skip to update the subtree, but still traverse the nodes of subtree". On
  equal versions the two differ (the header skips an "older" version, the spec one
  that is "not strictly newer"); the model follows the spec and skips. A child entry
  is applied to the child of that name, which is created when there is none.

  \<open>update_node\<close> returns the node afterwards and the cursor \<^verbatim>\<open>*idx\<close>;
  \<open>update_children\<close> is the loop over the declared number of children. A read past
  the end of the listing is \<open>None\<close>. The first argument is fuel: the recursion
  follows the child counts the listing declares, not the structure of an argument, and
  \<open>None\<close> is also the result when the fuel runs out.
\<close>

fun update_node ::
  "nat \<Rightarrow> TRuntimeProfileNode list \<Rightarrow> nat \<Rightarrow> bool \<Rightarrow> profile \<Rightarrow> (profile \<times> nat) option"
and update_children ::
  "nat \<Rightarrow> TRuntimeProfileNode list \<Rightarrow> nat \<Rightarrow> nat \<Rightarrow> bool \<Rightarrow> profile list
     \<Rightarrow> (profile list \<times> nat) option"
where
  "update_node 0 nodes idx is_parent_node_old p = None"
| "update_node (Suc fuel) nodes idx is_parent_node_old p =
     (if idx < length nodes
      then (let node = nodes ! idx;
                is_node_old = (is_parent_node_old \<or> \<not> n_version p <s tn_version node);
                ver = (if is_node_old then n_version p else tn_version node);
                cs = (if is_node_old then n_counters p
                      else fold apply_counter (tn_counters node) (n_counters p))
            in case update_children fuel nodes (tn_num_children node) (idx + 1) is_node_old
                      (n_children p) of
                 None \<Rightarrow> None
               | Some (kids, idx') \<Rightarrow>
                   Some (Profile (n_name p) ver cs (n_total_time p) (n_local_time_percent p) kids,
                         idx'))
      else None)"
| "update_children fuel nodes 0 idx is_node_old kids = Some (kids, idx)"
| "update_children fuel nodes (Suc remaining) idx is_node_old kids =
     (if idx < length nodes
      then (let tchild = nodes ! idx
            in case find_child (tn_name tchild) kids of
                 Some j \<Rightarrow>
                   (case update_node fuel nodes idx is_node_old (kids ! j) of
                      None \<Rightarrow> None
                    | Some (child, idx') \<Rightarrow>
                        update_children fuel nodes remaining idx' is_node_old (kids[j := child]))
               | None \<Rightarrow>
                   (case update_node fuel nodes idx is_node_old (new_profile (tn_name tchild)) of
                      None \<Rightarrow> None
                    | Some (child, idx') \<Rightarrow>
                        update_children fuel nodes remaining idx' is_node_old (kids @ [child])))
      else None)"

text \<open>
  Modelled from the spec: the public \<^verbatim>\<open>update(const TRuntimeProfileTree&)\<close>,
  declared in the header and defined in \<^verbatim>\<open>runtime_profile.cpp\<close>, which is not among
  the sources: the walk of the listing from entry 0, with no stale parent. A walk reads
  every entry at most once, so the length of the listing is fuel enough.
\<close>

definition update_tree :: "TRuntimeProfileNode list \<Rightarrow> profile \<Rightarrow> (profile \<times> nat) option" where
  "update_tree nodes p = update_node (length nodes) nodes 0 False p"

text \<open>
  A snapshot as a tree, and its flattened listing: the entry of a node, with the number
  of its children as the declared child count, followed by the listings of its
  children in order. The span of a subtree in a listing is its flattened listing.
\<close>

datatype snapshot = Snapshot (s_node: TRuntimeProfileNode) (s_children: "snapshot list")

fun flatten :: "snapshot \<Rightarrow> TRuntimeProfileNode list" where
  "flatten (Snapshot node kids) =
     node\<lparr>tn_num_children := length kids\<rparr> # concat (map flatten kids)"

text \<open>
  Every counter value of a tree: the path of node names from the root, the counter's
  name and its value, for the node's own counters and then those of its children.
\<close>

fun values_of :: "profile \<Rightarrow> (string list \<times> string \<times> int64) list" where
  "values_of (Profile nm ver cs tt ltp kids) =
     map (\<lambda>(n, c). ([nm], n, counter_value c)) cs
     @ map (\<lambda>(path, n, v). (nm # path, n, v)) (concat (map values_of kids))"

text \<open>
  What the update of one snapshot subtree has to do, for every listing that holds the
  subtree's span, every cursor position of the span, and every live node.
\<close>

definition span_ok :: "snapshot \<Rightarrow> bool" where
  "span_ok s \<longleftrightarrow>
     (\<forall>fuel pre post old p. length (flatten s) \<le> fuel \<longrightarrow>
        (\<exists>p'. update_node fuel (pre @ flatten s @ post) (length pre) old p
                 = Some (p', length pre + length (flatten s))
              \<and> n_name p' = n_name p
              \<and> (old \<or> \<not> n_version p <s tn_version (s_node s) \<longrightarrow> values_of p' = values_of p)))"

text \<open>
  A live tree at version 5 with a child at version 2; a snapshot of it whose root is at
  version 5 (not newer) and whose child is at version 9, with other counter values; and
  the entry of a sibling that follows the snapshot in the listing.
\<close>

definition live_example :: profile where
  "live_example =
     Profile ''Fragment'' 5 [(''rows'', Counter3 UNIT (create_strategy UNIT) 7)]
       (Counter2 TIME_NS 0) 0
       [Profile ''Scan'' 2 [(''bytes'', Counter3 BYTES (create_strategy BYTES) 3)]
          (Counter2 TIME_NS 0) 0 []]"

definition snapshot_example :: snapshot where
  "snapshot_example =
     Snapshot
       \<lparr>tn_name = ''Fragment'', tn_num_children = 1,
        tn_counters = [\<lparr>tc_name = ''rows'', tc_type = UNIT, tc_value = 100,
                        tc_strategy = create_strategy UNIT\<rparr>],
        tn_metadata = 0, tn_indent = True, tn_version = 5\<rparr>
       [Snapshot
          \<lparr>tn_name = ''Scan'', tn_num_children = 0,
           tn_counters = [\<lparr>tc_name = ''bytes'', tc_type = BYTES, tc_value = 50,
                           tc_strategy = create_strategy BYTES\<rparr>],
           tn_metadata = 0, tn_indent = True, tn_version = 9\<rparr>
          []]"

definition sibling_example :: TRuntimeProfileNode where
  "sibling_example =
     \<lparr>tn_name = ''Sink'', tn_num_children = 0, tn_counters = [],
      tn_metadata = 0, tn_indent = True, tn_version = 1\<rparr>"

subsection \<open>Merge of isomorphic profiles\<close>























section \<open>Theorems\<close>

lemma Update_returns:
  "Update is_high v c =
     Some (c\<lparr>c_value := (if is_high then smax (c_value c) v else smin (c_value c) v)\<rparr>)"
  by (subst Update.simps) (simp add: compare_exchange_strong_def Let_def)

text \<open>
  C9. The two-argument constructor \<^verbatim>\<open>Counter(type, value)\<close> yields a counter whose
  \<^verbatim>\<open>value()\<close> is 0 whatever value argument was passed; the three-argument constructor
  \<^verbatim>\<open>Counter(type, strategy, value)\<close> stores the value it is given.
\<close>

theorem Counter_ctor_initial_value:
  "counter_value (Counter2 ty val) = 0 \<and> counter_value (Counter3 ty strategy val) = val"
  by (simp add: counter_value_def Counter2_def Counter3_def)

text \<open>
  C10. A freshly constructed low watermark counter (\<^verbatim>\<open>WaterMarkCounter<false>\<close>) reports
  \<open>2^63 - 1\<close> as \<^verbatim>\<open>value()\<close> and as \<^verbatim>\<open>current_value()\<close>, and a freshly constructed
  high watermark counter reports 0 for both; this holds for either constructor and any
  constructor arguments.
\<close>

theorem WaterMarkCounter_fresh:
  "sint (counter_value (WaterMarkCounter2 False ty val)) = 2 ^ 63 - 1
   \<and> sint (current_value (WaterMarkCounter2 False ty val)) = 2 ^ 63 - 1
   \<and> sint (counter_value (WaterMarkCounter3 False ty strategy val)) = 2 ^ 63 - 1
   \<and> sint (current_value (WaterMarkCounter3 False ty strategy val)) = 2 ^ 63 - 1
   \<and> counter_value (WaterMarkCounter2 True ty val) = 0
   \<and> current_value (WaterMarkCounter2 True ty val) = 0
   \<and> counter_value (WaterMarkCounter3 True ty strategy val) = 0
   \<and> current_value (WaterMarkCounter3 True ty strategy val) = 0"
  by (simp add: counter_value_def current_value_def WaterMarkCounter2_def
      WaterMarkCounter3_def set_init_value_def MAX_INT64_def)

subsection \<open>Watermark counters\<close>

lemma try_add_returns:
  "try_add is_high delta mx c =
     Some (if mx <s current_val c + delta then (False, c)
           else (True, c\<lparr>current_val := current_val c + delta,
                          c_value := (if is_high then smax (c_value c) (current_val c + delta)
                                      else smin (c_value c) (current_val c + delta))\<rparr>))"
  by (subst try_add.simps) (simp add: compare_exchange_strong_def Let_def Update_returns)

lemma wm_at_10_eq:
  "wm_at_10 = \<lparr>c_value = 10, c_type = UNIT, c_strategy = create_strategy UNIT,
      c_min_value = None, c_max_value = None, current_val = 10\<rparr>"
  by (simp add: wm_at_10_def wm_set_def Update_returns WaterMarkCounter2_def set_init_value_def
      Counter2_def smax_def Counter.extend_def WaterMarkCounter.fields_def word_sless_alt)

text \<open>
  C3, as the claim states its last part: "in no case does the call leave the current
  value greater than max". A counter whose current value is 10 and a call
  \<^verbatim>\<open>try_add(0, 5)\<close>: the sum 10 exceeds 5, the call returns false and leaves the
  counter as it was, with its current value 10 above the bound 5.
\<close>

theorem try_add_leaves_above_max_counterexample:
  "try_add True 0 5 wm_at_10 = Some (False, wm_at_10) \<and> 5 <s current_value wm_at_10"
  by (simp add: try_add_returns wm_at_10_eq current_value_def word_sless_alt)

text \<open>
  C3, amended. For every watermark counter with current value \<open>c\<close> and every \<open>delta\<close>
  and \<open>max\<close> (64-bit signed arithmetic), \<^verbatim>\<open>try_add(delta, max)\<close> returns: when
  \<open>c + delta \<le> max\<close> it returns true, the current value becomes \<open>c + delta\<close> (which
  is at most \<open>max\<close>) and the recorded extreme is updated with it; when
  \<open>c + delta > max\<close> it returns false and leaves the whole counter, current value and
  recorded extreme included, unchanged. (So the current value is above \<open>max\<close>
  after the call only if the call failed and it was above \<open>max\<close> before.)
\<close>

theorem try_add_amended:
  "\<exists>r c'. try_add is_high delta mx c = Some (r, c')
     \<and> (if current_value c + delta \<le>s mx
         then r \<and> current_value c' = current_value c + delta \<and> current_value c' \<le>s mx
              \<and> counter_value c' =
                  (if is_high then smax (counter_value c) (current_value c + delta)
                   else smin (counter_value c) (current_value c + delta))
         else \<not> r \<and> c' = c)"
proof (cases "mx <s current_val c + delta")
  case True
  then have "\<not> current_val c + delta \<le>s mx"
    by (simp add: signed.not_le)
  with True show ?thesis
    by (intro exI [of _ False] exI [of _ c])
       (simp add: try_add_returns current_value_def counter_value_def)
next
  case False
  then have "current_val c + delta \<le>s mx"
    by (simp add: signed.not_less)
  with False show ?thesis
    by (intro exI [of _ True] exI [of _ "c\<lparr>current_val := current_val c + delta,
          c_value := (if is_high then smax (c_value c) (current_val c + delta)
                      else smin (c_value c) (current_val c + delta))\<rparr>"])
       (simp add: try_add_returns current_value_def counter_value_def)
qed

subsection \<open>Concurrent updates\<close>

lemma run_updates_invariant:
  "run_updates sched pending c = (pending', c') \<Longrightarrow>
   counter_value c' + sum_list (concat pending') = counter_value c + sum_list (concat pending)"
proof (induction sched arbitrary: pending c)
  case Nil
  then show ?case by simp
next
  case (Cons t sched)
  show ?case
  proof (cases "t < length pending")
    case False
    with Cons show ?thesis by simp
  next
    case True
    show ?thesis
    proof (cases "pending ! t")
      case Nil
      with True Cons show ?thesis by simp
    next
      case (Cons delta rest)
      have whole: "pending = take t pending @ (delta # rest) # drop (Suc t) pending"
        using True Cons by (metis id_take_nth_drop)
      have upd: "pending[t := rest] = take t pending @ rest # drop (Suc t) pending"
        using True by (simp add: upd_conv_take_nth_drop)
      have "sum_list (concat pending) = delta + sum_list (concat (pending[t := rest]))"
        by (subst whole, subst upd) (simp add: algebra_simps)
      moreover have "run_updates sched (pending[t := rest]) (update delta c) = (pending', c')"
        using Cons.prems True Cons by simp
      from Cons.IH [OF this]
      have "counter_value c' + sum_list (concat pending') =
            counter_value (update delta c) + sum_list (concat (pending[t := rest]))" .
      ultimately show ?thesis
        by (simp add: counter_value_def update_def algebra_simps)
    qed
  qed
qed

text \<open>
  C7. For every Counter, every number of threads, every list of deltas each thread
  issues through \<^verbatim>\<open>update\<close>, and every interleaving of those calls (every schedule):
  once all threads have issued all their calls, \<^verbatim>\<open>value()\<close> is the initial value plus
  the sum of all deltas, in 64-bit arithmetic. No increment is lost.
\<close>

theorem concurrent_updates_exact:
  "run_updates sched pending c = (pending', c') \<Longrightarrow> concat pending' = [] \<Longrightarrow>
   counter_value c' = counter_value c + sum_list (concat pending)"
proof -
  assume run: "run_updates sched pending c = (pending', c')"
    and finished: "concat pending' = []"
  from run_updates_invariant [OF run]
  show ?thesis
    unfolding finished by simp
qed

theorem concurrent_updates_exact_witness:
  "fst (run_updates [0, 1, 0, 1, 1] [[1, 2], [3, 4, 5]] (Counter3 UNIT (create_strategy UNIT) 7))
     = [[], []]
   \<and> counter_value
       (snd (run_updates [0, 1, 0, 1, 1] [[1, 2], [3, 4, 5]] (Counter3 UNIT (create_strategy UNIT) 7)))
     = 22"
  using concurrent_updates_exact [of "[0, 1, 0, 1, 1]" "[[1, 2], [3, 4, 5]]"
      "Counter3 UNIT (create_strategy UNIT) 7"
      "fst (run_updates [0, 1, 0, 1, 1] [[1, 2], [3, 4, 5]] (Counter3 UNIT (create_strategy UNIT) 7))"
      "snd (run_updates [0, 1, 0, 1, 1] [[1, 2], [3, 4, 5]] (Counter3 UNIT (create_strategy UNIT) 7))"]
  by (simp add: counter_value_def Counter3_def)

subsection \<open>Scoped timer\<close>

text \<open>
  C4. For every scoped timer on a non-null Counter, the destructor (which runs on every
  way out of the scope) adds the elapsed duration of the stopped watch to that Counter
  once, and touches no other counter and no flag; except that when the cancellation
  flag pointer is non-null and the flag reads true at exit, the Counter is left
  unchanged. In particular a Counter at 0 whose timer elapses 50 time units and exits
  with the flag true is left at 0 (and with the flag false it holds 50).
\<close>

theorem ScopedTimer_exit:
  "st_counter t = Some a \<Longrightarrow>
   h_counters (snd (ScopedTimer_dtor T t h)) =
     (if is_cancelled t h then h_counters h
      else (h_counters h)(a := update (sw_elapsed_time T (sw_stop T (st_sw t))) (h_counters h a)))
   \<and> h_flags (snd (ScopedTimer_dtor T t h)) = h_flags h
   \<and> (is_cancelled t h \<longleftrightarrow> (\<exists>f. st_is_cancelled t = Some f \<and> h_flags h f))"
  by (auto simp: ScopedTimer_dtor_def UpdateCounter_def is_cancelled_def Let_def
      split: option.splits)

theorem ScopedTimer_exit_witness:
  "counter_value (h_counters (timed_scope 1000 50 True) 0) = 0
   \<and> counter_value (h_counters (timed_scope 1000 50 False) 0) = 50"
  using ScopedTimer_exit [where a = 0 and T = MonotonicStopWatch_ops]
  by (simp add: timed_scope_def ScopedTimer_ctor_def is_cancelled_def heap0_def Counter2_def
      counter_value_def update_def MonotonicStopWatch_ops_def msw_new_def msw_start_op_def
      msw_stop_op_def msw_elapsed_time_def advance_def)

subsection \<open>The version of a node\<close>

lemma sint_inc: "sint (v :: int64) < 2 ^ 63 - 1 \<Longrightarrow> sint (v + 1) = sint v + 1"
proof -
  assume a: "sint v < 2 ^ 63 - 1"
  have lo: "- (2 ^ 63) \<le> sint v"
    using sint_ge [of v] by simp
  have "sint (v + 1) = signed_take_bit 63 (sint v + 1)"
    by (simp add: sint_word_ariths)
  also have "\<dots> = sint v + 1"
    using a lo by (intro signed_take_bit_int_eq_self) auto
  finally show ?thesis .
qed

lemma version_other_ops: "x \<noteq> Inc_version \<Longrightarrow> p_version (apply_op x p) = p_version p"
  by (cases x) (simp_all add: reset_parent_def set_name_def set_metadata_def sort_childer_def)

lemma run_ops_version:
  "sint (p_version p) + int (count_list ops Inc_version) < 2 ^ 63 \<Longrightarrow>
   sint (p_version (run_ops ops p)) = sint (p_version p) + int (count_list ops Inc_version)"
proof (induction ops arbitrary: p)
  case Nil
  then show ?case by simp
next
  case (Cons x xs)
  show ?case
  proof (cases "x = Inc_version")
    case True
    have small: "sint (p_version p) < 2 ^ 63 - 1"
      using Cons.prems True by simp
    have step: "sint (p_version (apply_op x p)) = sint (p_version p) + 1"
      using True sint_inc [OF small] by (simp add: inc_version_def)
    have "sint (p_version (apply_op x p)) + int (count_list xs Inc_version) < 2 ^ 63"
      using Cons.prems True step by simp
    from Cons.IH [OF this] show ?thesis
      using True step by simp
  next
    case False
    then have same: "p_version (apply_op x p) = p_version p"
      by (rule version_other_ops)
    have "sint (p_version (apply_op x p)) + int (count_list xs Inc_version) < 2 ^ 63"
      using Cons.prems False same by simp
    from Cons.IH [OF this] show ?thesis
      using False same by simp
  qed
qed

lemma update_node_version:
  "update_node fuel nodes idx old q = Some (q', idx') \<Longrightarrow> n_version q \<le>s n_version q'"
  by (cases fuel)
     (auto simp: Let_def word_sle_eq word_sless_alt split: if_splits option.splits)

text \<open>
  C8. The version of a node only increases. \<^verbatim>\<open>inc_version\<close> adds exactly 1 to the
  stored version; for every sequence of the node's member functions that the header
  defines (\<^verbatim>\<open>reset_parent\<close>, \<^verbatim>\<open>set_name\<close>, \<^verbatim>\<open>set_metadata\<close>, \<^verbatim>\<open>sort_childer\<close>,
  \<^verbatim>\<open>inc_version\<close>, \<^verbatim>\<open>get_version\<close>), as long as the increments stay within the
  64-bit signed range, \<^verbatim>\<open>get_version\<close> afterwards returns the version before plus the
  number of \<^verbatim>\<open>inc_version\<close> calls, which is never smaller than the version before;
  and the update from a snapshot, the one other function that writes the version, never
  leaves a node with a smaller version than it had.
\<close>

theorem version_only_increases:
  "get_version (inc_version p) = get_version p + 1
   \<and> (sint (get_version p) + int (count_list ops Inc_version) < 2 ^ 63 \<longrightarrow>
        sint (get_version (run_ops ops p)) = sint (get_version p) + int (count_list ops Inc_version)
        \<and> get_version p \<le>s get_version (run_ops ops p))
   \<and> (update_node fuel nodes idx old q = Some (q', idx') \<longrightarrow> n_version q \<le>s n_version q')"
  using run_ops_version [of p ops] update_node_version [of fuel nodes idx old q q' idx']
  by (simp add: get_version_def inc_version_def word_sle_eq)

theorem version_only_increases_witness:
  "sint (get_version (RuntimeProfile_ctor ''Query'' False))
     + int (count_list [Inc_version, Set_name ''Q'', Inc_version, Get_version, Reset_parent] Inc_version)
     < 2 ^ 63
   \<and> sint (get_version
        (run_ops [Inc_version, Set_name ''Q'', Inc_version, Get_version, Reset_parent]
           (RuntimeProfile_ctor ''Query'' False))) = 2
   \<and> update_node 1 [sibling_example] 0 False (new_profile ''Sink'')
       = Some (Profile ''Sink'' 1 [] (Counter2 TIME_NS 0) 0 [], 1)
   \<and> n_version (new_profile ''Sink'') \<le>s n_version (Profile ''Sink'' 1 [] (Counter2 TIME_NS 0) 0 [])"
  using version_only_increases [of "RuntimeProfile_ctor ''Query'' False"
      "[Inc_version, Set_name ''Q'', Inc_version, Get_version, Reset_parent]"
      1 "[sibling_example]" 0 False "new_profile ''Sink''"
      "Profile ''Sink'' 1 [] (Counter2 TIME_NS 0) 0 []" 1]
  by (simp add: get_version_def RuntimeProfile_ctor_def sibling_example_def new_profile_def
      word_sless_alt)

subsection \<open>Idempotent registration\<close>

lemma create_child_existing:
  "self < length (pool_profiles st) \<Longrightarrow> p_child_map (pool_profiles st ! self) name = Some child \<Longrightarrow>
   create_child self name indent prepend st = Some (child, st)"
  by (simp add: create_child_def)

lemma create_child_registers:
  "create_child self name indent prepend st = Some (child, st') \<Longrightarrow>
   self < length (pool_profiles st') \<and> p_child_map (pool_profiles st' ! self) name = Some child"
  by (auto simp: create_child_def Let_def nth_append split: if_splits option.splits)

lemma add_child_counter_existing:
  "self < length (pool_profiles st) \<Longrightarrow> p_counter_map (pool_profiles st ! self) name = Some (c, parent) \<Longrightarrow>
   add_child_counter self name ty strategy parent_name st = Some (c, st)"
  by (simp add: add_child_counter_def)

lemma add_child_counter_registers:
  "add_child_counter self name ty strategy parent_name st = Some (c, st') \<Longrightarrow>
   self < length (pool_profiles st') \<and> (\<exists>parent. p_counter_map (pool_profiles st' ! self) name = Some (c, parent))"
  by (auto simp: add_child_counter_def Let_def split: if_splits option.splits)

text \<open>
  C5. \<^verbatim>\<open>create_child\<close> and \<^verbatim>\<open>add_counter\<close> are idempotent. For every node and pool,
  if a call \<^verbatim>\<open>create_child(name, indent, prepend)\<close> returned a child, a second call with
  the same name and any \<open>indent'\<close>, \<open>prepend'\<close> returns the same object and leaves the
  pool, and so the node's child list, child map, counter map and child-counter map,
  unchanged; and if a call \<^verbatim>\<open>add_counter(name, unit, strategy)\<close> returned a counter, a
  second call with the same name and any unit and strategy returns the same object and
  leaves the pool unchanged.
\<close>

theorem registration_idempotent:
  "(create_child self name indent prepend st = Some (child, st') \<longrightarrow>
      create_child self name indent' prepend' st' = Some (child, st'))
   \<and> (add_counter self cname ty strategy st = Some (c, st'') \<longrightarrow>
      add_counter self cname ty' strategy' st'' = Some (c, st''))"
proof (intro conjI impI)
  assume "create_child self name indent prepend st = Some (child, st')"
  from create_child_registers [OF this]
  show "create_child self name indent' prepend' st' = Some (child, st')"
    by (simp add: create_child_existing)
next
  assume "add_counter self cname ty strategy st = Some (c, st'')"
  then have "add_child_counter self cname ty strategy ROOT_COUNTER st = Some (c, st'')"
    by (simp add: add_counter_def)
  from add_child_counter_registers [OF this]
  show "add_counter self cname ty' strategy' st'' = Some (c, st'')"
    by (auto simp: add_counter_def add_child_counter_existing)
qed

theorem registration_idempotent_witness:
  "create_child 0 ''Scan'' True False pool0
     = Some (1, snd (the (create_child 0 ''Scan'' True False pool0)))
   \<and> create_child 0 ''Scan'' False True (snd (the (create_child 0 ''Scan'' True False pool0)))
     = create_child 0 ''Scan'' True False pool0
   \<and> add_counter 0 ''rows'' UNIT (create_strategy UNIT) pool0
     = Some (0, snd (the (add_counter 0 ''rows'' UNIT (create_strategy UNIT) pool0)))
   \<and> add_counter 0 ''rows'' TIME_NS (create_strategy TIME_NS)
       (snd (the (add_counter 0 ''rows'' UNIT (create_strategy UNIT) pool0)))
     = add_counter 0 ''rows'' UNIT (create_strategy UNIT) pool0"
proof -
  have child: "create_child 0 ''Scan'' True False pool0
     = Some (1, snd (the (create_child 0 ''Scan'' True False pool0)))"
    by (simp add: create_child_def pool0_def RuntimeProfile_ctor_def Let_def)
  have counter: "add_counter 0 ''rows'' UNIT (create_strategy UNIT) pool0
     = Some (0, snd (the (add_counter 0 ''rows'' UNIT (create_strategy UNIT) pool0)))"
    by (simp add: add_counter_def add_child_counter_def pool0_def RuntimeProfile_ctor_def Let_def)
  from registration_idempotent [of 0 "''Scan''" True False pool0 1
      "snd (the (create_child 0 ''Scan'' True False pool0))" False True
      "''rows''" UNIT "create_strategy UNIT" 0
      "snd (the (add_counter 0 ''rows'' UNIT (create_strategy UNIT) pool0))"
      TIME_NS "create_strategy TIME_NS"]
  show ?thesis
    using child counter by simp
qed

subsection \<open>Time attribution\<close>

lemma compute_time_rec_total_time [simp]:
  "n_total_time (compute_time_rec total_time q) = n_total_time q"
  by (cases q) (simp add: Let_def)

lemma compute_time_rec_fraction [simp]:
  "n_local_time_percent (compute_time_rec total_time q) = local_time_fraction total_time q"
  by (cases q) (simp add: Let_def local_time_fraction_def clamp01_def)

lemma compute_time_rec_children [simp]:
  "n_children (compute_time_rec total_time q) = map (compute_time_rec total_time) (n_children q)"
  by (cases q) (simp add: Let_def)

lemma all_nodes_unfold: "all_nodes q = q # concat (map all_nodes (n_children q))"
  by (cases q) simp

lemma compute_time_rec_fractions:
  "map n_local_time_percent (all_nodes (compute_time_rec total_time p))
     = map (local_time_fraction total_time) (all_nodes p)"
proof (induction p)
  case (Profile nm ver cs tt ltp kids)
  have kids: "concat (map (\<lambda>k. map n_local_time_percent (all_nodes (compute_time_rec total_time k))) kids)
      = concat (map (\<lambda>k. map (local_time_fraction total_time) (all_nodes k)) kids)"
    using Profile.IH by (induction kids) simp_all
  have "all_nodes (compute_time_rec total_time (Profile nm ver cs tt ltp kids))
      = compute_time_rec total_time (Profile nm ver cs tt ltp kids)
        # concat (map all_nodes (map (compute_time_rec total_time) kids))"
    by (subst all_nodes_unfold) (simp del: compute_time_rec.simps)
  then show ?case
    using kids by (simp add: map_concat comp_def del: compute_time_rec.simps)
qed

lemma local_time_fraction_bounds: "0 \<le> local_time_fraction t q \<and> local_time_fraction t q \<le> 1"
  by (simp add: local_time_fraction_def)

text \<open>
  C6. For every profile tree, \<^verbatim>\<open>compute_time_in_profile\<close> sets the local time fraction
  of each node (listed parent first) to that node's total time minus the sum of its
  direct children's total times, divided by the root's total time and clamped to
  [0, 1]; every fraction lies in [0, 1]; and when the root's total time is 0 every
  fraction is 0. In particular a root with total time 100 and one child with total
  time 40 get 0.6 and 0.4.
\<close>

theorem compute_time_in_profile_fractions:
  "map n_local_time_percent (all_nodes (compute_time_in_profile p))
     = map (local_time_fraction (counter_value (n_total_time p))) (all_nodes p)
   \<and> list_all (\<lambda>x. 0 \<le> x \<and> x \<le> 1)
        (map n_local_time_percent (all_nodes (compute_time_in_profile p)))
   \<and> (counter_value (n_total_time p) = 0 \<longrightarrow>
        list_all (\<lambda>x. x = 0) (map n_local_time_percent (all_nodes (compute_time_in_profile p))))"
  by (simp add: compute_time_in_profile_def compute_time_rec_fractions list_all_iff
      local_time_fraction_bounds) (simp add: local_time_fraction_def)

theorem compute_time_in_profile_witness:
  "map n_local_time_percent
     (all_nodes (compute_time_in_profile (timed ''root'' 100 [timed ''child'' 40 []])))
     = [0.6, 0.4]
   \<and> counter_value (n_total_time (timed ''idle'' 0 [timed ''child'' 40 []])) = 0
   \<and> map n_local_time_percent
       (all_nodes (compute_time_in_profile (timed ''idle'' 0 [timed ''child'' 40 []])))
     = [0, 0]"
  using compute_time_in_profile_fractions [of "timed ''root'' 100 [timed ''child'' 40 []]"]
    compute_time_in_profile_fractions [of "timed ''idle'' 0 [timed ''child'' 40 []]"]
  by (simp add: timed_def local_time_fraction_def counter_value_def Counter3_def)

subsection \<open>Staleness skip of the incremental update\<close>

lemma values_of_unfold:
  "values_of p =
     map (\<lambda>(n, c). ([n_name p], n, counter_value c)) (n_counters p)
     @ map (\<lambda>(path, n, v). (n_name p # path, n, v)) (concat (map values_of (n_children p)))"
  by (cases p) simp

lemma values_of_new_profile [simp]: "values_of (new_profile nm) = []"
  by (simp add: new_profile_def)

lemma find_child_bound: "find_child nm kids = Some j \<Longrightarrow> j < length kids"
  by (induction kids arbitrary: j) (auto split: if_splits)

lemma concat_map_update:
  "j < length xs \<Longrightarrow> f y = f (xs ! j) \<Longrightarrow> concat (map f (xs[j := y])) = concat (map f xs)"
proof -
  assume j: "j < length xs" and same: "f y = f (xs ! j)"
  have "map f (xs[j := y]) = (map f xs)[j := map f xs ! j]"
    using j same by (simp add: map_update)
  also have "\<dots> = map f xs"
    by (rule list_update_id)
  finally show ?thesis by simp
qed

lemma flatten_nonempty: "flatten s \<noteq> []"
  by (cases s) simp

lemma flatten_hd: "flatten s ! 0 = (s_node s)\<lparr>tn_num_children := length (s_children s)\<rparr>"
  by (cases s) simp

lemma update_children_span:
  assumes "\<forall>k \<in> set ks. span_ok k"
    and "length (concat (map flatten ks)) \<le> fuel"
  shows "\<exists>kids'. update_children fuel (pre @ concat (map flatten ks) @ post) (length ks)
                    (length pre) old kids
                  = Some (kids', length pre + length (concat (map flatten ks)))
               \<and> (old \<longrightarrow> concat (map values_of kids') = concat (map values_of kids))"
  using assms
proof (induction ks arbitrary: pre kids)
  case Nil
  then show ?case by simp
next
  case (Cons k ks)
  let ?rest = "concat (map flatten ks)"
  let ?nodes = "pre @ flatten k @ ?rest @ post"
  have ok: "span_ok k" using Cons.prems by simp
  have fk: "length (flatten k) \<le> fuel" using Cons.prems by simp
  have frest: "length ?rest \<le> fuel" using Cons.prems by simp
  have nodes: "pre @ concat (map flatten (k # ks)) @ post = ?nodes" by simp
  have inrange: "length pre < length ?nodes"
    using flatten_nonempty [of k] by (cases "flatten k") simp_all
  have at: "?nodes ! length pre = flatten k ! 0"
    using flatten_nonempty [of k] by (simp add: nth_append)
  have step: "\<exists>c'. update_node fuel ?nodes (length pre) old c
                 = Some (c', length pre + length (flatten k))
               \<and> n_name c' = n_name c
               \<and> (old \<longrightarrow> values_of c' = values_of c)" for c
    using ok fk unfolding span_ok_def
    by (metis (no_types, lifting))
  have tail: "\<exists>kids'. update_children fuel ?nodes (length ks) (length pre + length (flatten k)) old ys
                  = Some (kids', length pre + length (flatten k) + length ?rest)
               \<and> (old \<longrightarrow> concat (map values_of kids') = concat (map values_of ys))" for ys
    using Cons.IH [of "pre @ flatten k" ys] Cons.prems frest by simp
  show ?case
  proof (cases "find_child (tn_name (flatten k ! 0)) kids")
    case None
    from step [of "new_profile (tn_name (flatten k ! 0))"] obtain c' where
      c': "update_node fuel ?nodes (length pre) old (new_profile (tn_name (flatten k ! 0)))
             = Some (c', length pre + length (flatten k))"
      and v: "old \<longrightarrow> values_of c' = []"
      by auto
    from tail [of "kids @ [c']"] obtain kids' where
      k': "update_children fuel ?nodes (length ks) (length pre + length (flatten k)) old (kids @ [c'])
             = Some (kids', length pre + length (flatten k) + length ?rest)"
      and kv: "old \<longrightarrow> concat (map values_of kids') = concat (map values_of (kids @ [c']))"
      by auto
    show ?thesis
      unfolding nodes using inrange None c' k' v kv
      by (simp add: at Let_def)
  next
    case (Some j)
    then have j: "j < length kids" by (rule find_child_bound)
    from step [of "kids ! j"] obtain c' where
      c': "update_node fuel ?nodes (length pre) old (kids ! j)
             = Some (c', length pre + length (flatten k))"
      and v: "old \<longrightarrow> values_of c' = values_of (kids ! j)"
      by auto
    from tail [of "kids[j := c']"] obtain kids' where
      k': "update_children fuel ?nodes (length ks) (length pre + length (flatten k)) old (kids[j := c'])
             = Some (kids', length pre + length (flatten k) + length ?rest)"
      and kv: "old \<longrightarrow> concat (map values_of kids') = concat (map values_of (kids[j := c']))"
      by auto
    have "old \<longrightarrow> concat (map values_of kids') = concat (map values_of kids)"
      using kv v j by (simp add: concat_map_update)
    then show ?thesis
      unfolding nodes using inrange Some c' k'
      by (simp add: at Let_def)
  qed
qed

lemma span_ok_all: "span_ok s"
proof (induction s)
  case (Snapshot node ks)
  have kids_ok: "\<forall>k \<in> set ks. span_ok k" using Snapshot.IH by simp
  let ?node = "node\<lparr>tn_num_children := length ks\<rparr>"
  let ?rest = "concat (map flatten ks)"
  show ?case
    unfolding span_ok_def
  proof (intro allI impI)
    fix fuel pre post old p
    assume len: "length (flatten (Snapshot node ks)) \<le> fuel"
    then obtain f where fuel: "fuel = Suc f" and f: "length ?rest \<le> f"
      by (cases fuel) simp_all
    let ?nodes = "pre @ flatten (Snapshot node ks) @ post"
    let ?old = "old \<or> \<not> n_version p <s tn_version node"
    have nodes: "?nodes = (pre @ [?node]) @ ?rest @ post" by simp
    have inrange: "length pre < length ?nodes" by simp
    have at: "?nodes ! length pre = ?node" by (simp add: nth_append)
    from update_children_span [OF kids_ok f, of "pre @ [?node]" post ?old "n_children p"]
    obtain kids' where
      k': "update_children f ?nodes (length ks) (length pre + 1) ?old (n_children p)
             = Some (kids', length pre + 1 + length ?rest)"
      and kv: "?old \<longrightarrow> concat (map values_of kids') = concat (map values_of (n_children p))"
      unfolding nodes by auto
    let ?p' = "Profile (n_name p) (if ?old then n_version p else tn_version node)
                 (if ?old then n_counters p else fold apply_counter (tn_counters node) (n_counters p))
                 (n_total_time p) (n_local_time_percent p) kids'"
    have run: "update_node fuel ?nodes (length pre) old p
                 = Some (?p', length pre + length (flatten (Snapshot node ks)))"
      unfolding fuel using inrange k'
      by (simp add: at Let_def del: flatten.simps) simp
    have vals: "?old \<longrightarrow> values_of ?p' = values_of p"
      using kv by (subst (2) values_of_unfold) simp
    show "\<exists>p'. update_node fuel ?nodes (length pre) old p
                 = Some (p', length pre + length (flatten (Snapshot node ks)))
              \<and> n_name p' = n_name p
              \<and> (old \<or> \<not> n_version p <s tn_version (s_node (Snapshot node ks))
                   \<longrightarrow> values_of p' = values_of p)"
      using run vals by (intro exI [of _ ?p']) simp
  qed
qed

text \<open>
  C1. For every live profile node and every flattened snapshot subtree, wherever its
  span lies in the listing: applying \<^verbatim>\<open>update\<close> with the cursor on the span's first
  entry, to a node for which the incoming version is not strictly newer than the stored
  version (or whose parent was already found stale), returns; every counter value of the
  node and of its subtree is afterwards what it was; and the cursor is on the entry
  right after the span, where the next sibling is read. The same holds of the public
  \<^verbatim>\<open>update\<close> on a listing that starts with the snapshot.
\<close>

theorem update_stale_skips:
  assumes "length (flatten s) \<le> fuel"
    and "is_parent_node_old \<or> \<not> n_version p <s tn_version (s_node s)"
  shows "(\<exists>p'. update_node fuel (pre @ flatten s @ post) (length pre) is_parent_node_old p
                 = Some (p', length pre + length (flatten s))
             \<and> values_of p' = values_of p)
         \<and> (\<not> is_parent_node_old \<longrightarrow>
              (\<exists>p'. update_tree (flatten s @ post) p = Some (p', length (flatten s))
                  \<and> values_of p' = values_of p))"
proof (intro conjI impI)
  show "\<exists>p'. update_node fuel (pre @ flatten s @ post) (length pre) is_parent_node_old p
                 = Some (p', length pre + length (flatten s))
             \<and> values_of p' = values_of p"
    using span_ok_all [of s] assms unfolding span_ok_def by blast
next
  assume "\<not> is_parent_node_old"
  with assms(2) have stale: "\<not> n_version p <s tn_version (s_node s)"
    by simp
  have "length (flatten s) \<le> length (flatten s @ post)"
    by simp
  with span_ok_all [of s] stale
  have "\<exists>p'. update_node (length (flatten s @ post)) ([] @ flatten s @ post) (length ([] :: TRuntimeProfileNode list)) False p
                 = Some (p', length ([] :: TRuntimeProfileNode list) + length (flatten s))
             \<and> values_of p' = values_of p"
    unfolding span_ok_def by blast
  then show "\<exists>p'. update_tree (flatten s @ post) p = Some (p', length (flatten s))
                  \<and> values_of p' = values_of p"
    by (simp add: update_tree_def)
qed

theorem update_stale_skips_witness:
  "map_option snd (update_tree (flatten snapshot_example @ [sibling_example]) live_example) = Some 2
   \<and> map_option (values_of \<circ> fst)
        (update_tree (flatten snapshot_example @ [sibling_example]) live_example)
     = Some [([''Fragment''], ''rows'', 7), ([''Fragment'', ''Scan''], ''bytes'', 3)]
   \<and> (flatten snapshot_example @ [sibling_example]) ! 2 = sibling_example"
proof -
  have fuel: "length (flatten snapshot_example) \<le> 3"
    and stale: "False \<or> \<not> n_version live_example <s tn_version (s_node snapshot_example)"
    and span: "length (flatten snapshot_example) = 2"
    and vals: "values_of live_example
                 = [([''Fragment''], ''rows'', 7), ([''Fragment'', ''Scan''], ''bytes'', 3)]"
    by (simp_all add: snapshot_example_def live_example_def counter_value_def Counter3_def)
  from update_stale_skips [OF fuel stale, of "[]" "[sibling_example]"]
  obtain p' where
    "update_tree (flatten snapshot_example @ [sibling_example]) live_example = Some (p', 2)"
    "values_of p' = values_of live_example"
    unfolding span by auto
  moreover have "(flatten snapshot_example @ [sibling_example]) ! 2 = sibling_example"
    using span by (simp add: nth_append)
  ultimately show ?thesis
    by (simp add: vals)
qed

subsection \<open>Merge of isomorphic profiles\<close>



























end
